theory Spec2Isabelle
  imports Main "HOL-Library.Multiset"
begin

section \<open>The subscribed-videos endpoint\<close>

text \<open>
  The repository holds one request handler, \<^verbatim>\<open>GET\<close>, in two copies: the file
  \<^verbatim>\<open>src/unnamed/part_000\<close> (token validation, cache-disabling headers) and the file
  \<^verbatim>\<open>src/app/api/videos/route.ts\<close> (the same body without the identity call and without
  any header). Both are embedded below; the shared code is embedded once.

  Conventions of the embedding.
  \<^item> An optional property \<^verbatim>\<open>p?: T\<close> is an \<open>option\<close>; \<open>None\<close> is \<^verbatim>\<open>undefined\<close>.
  \<^item> A parsed upstream body has the type the source declares for it (\<^verbatim>\<open>Subscription\<close>,
    \<^verbatim>\<open>YouTubeVideo\<close>); a body that does not parse, or that is not an object, is an
    exception.
  \<^item> Upstream calls are answered by a \<open>world\<close> value, and every call made is appended to
    a log, so that "no call is attempted" is a statement about the log.
  \<^item> A JavaScript exception is a value of type \<open>js_error\<close>; the body of the
    \<^verbatim>\<open>try\<close> block returns \<open>js_error + response\<close>.
  \<^item> \<^verbatim>\<open>console.log\<close> and \<^verbatim>\<open>console.error\<close> are not modelled, nor is the text of
    the URLs beyond the channel identifier and the bearer token.
\<close>

subsection \<open>Upstream records, as declared in the source\<close>

text \<open>\<^verbatim>\<open>type Subscription = { snippet?: { resourceId?: { channelId?: string }; title?: string } }\<close>\<close>

record ResourceId =
  channelId :: "string option"

record SubscriptionSnippet =
  resourceId :: "ResourceId option"
  subscription_title :: "string option"

record Subscription =
  subscription_snippet :: "SubscriptionSnippet option"

text \<open>
  \<^verbatim>\<open>type YouTubeVideo = { id?: { videoId?: string };
     snippet?: { title?: string; thumbnails?: { medium?: { url?: string } }; publishedAt?: string } }\<close>
\<close>

record VideoId =
  raw_videoId :: "string option"

record Medium =
  raw_url :: "string option"

record Thumbnails =
  medium :: "Medium option"

record VideoSnippet =
  raw_title :: "string option"
  thumbnails :: "Thumbnails option"
  raw_publishedAt :: "string option"

record YouTubeVideo =
  video_id :: "VideoId option"
  video_snippet :: "VideoSnippet option"

text \<open>
  \<^verbatim>\<open>type SanitizedVideo = { id: { videoId: string };
     snippet: { title: string; thumbnails: { medium: { url: string } }; publishedAt: string } }\<close>
  Every property is mandatory, so the nesting carries no information and the record is
  flat: \<open>videoId\<close> is \<^verbatim>\<open>id.videoId\<close>, \<open>url\<close> is \<^verbatim>\<open>snippet.thumbnails.medium.url\<close>.
\<close>

record SanitizedVideo =
  videoId :: string
  title :: string
  url :: string
  publishedAt :: string

text \<open>
  The parsed bodies are untyped in the source (\<^verbatim>\<open>await response.json()\<close>). The handler
  reads \<^verbatim>\<open>error\<close> (tested for truthiness; \<^verbatim>\<open>error.message\<close> and \<^verbatim>\<open>error.code\<close>
  are read in the subscriptions stage) and \<^verbatim>\<open>items\<close>. The error member is
  the API's error object; \<open>None\<close> stands for a missing member (or a falsy one, which the
  source does not tell apart).
\<close>

record ApiError =
  error_message :: "string option"
  error_code :: "int option"

record SubscriptionsData =
  subscriptions_error :: "ApiError option"
  subscriptions_items :: "Subscription list option"

record SearchData =
  search_error :: "ApiError option"
  search_items :: "YouTubeVideo list option"

subsection \<open>Exceptions, upstream answers, the world\<close>

datatype js_error =
    NetworkError string       \<comment> \<open>\<^verbatim>\<open>fetch\<close> rejects\<close>
  | BodyError string          \<comment> \<open>\<^verbatim>\<open>response.json()\<close> rejects, or the parsed value has no properties to read\<close>
  | StatusRangeError int      \<comment> \<open>building a response with a status outside 200..599\<close>
  | NullBodyStatusError int   \<comment> \<open>building a response with a body and status 204, 205 or 304\<close>

text \<open>
  The outcome of \<^verbatim>\<open>await fetch(...)\<close> followed by \<^verbatim>\<open>await response.json()\<close>: the
  promise rejects, or it resolves with an HTTP status and a body that parses or not.
\<close>

datatype 'a fetch_outcome =
    Rejects js_error
  | Resolves nat "js_error + 'a"

text \<open>\<^verbatim>\<open>response.ok\<close>: the status is in the range 200..299.\<close>

definition ok :: "nat \<Rightarrow> bool" where
  "ok st = (200 \<le> st \<and> st \<le> 299)"

text \<open>
  What the environment answers during one request. \<open>search w k c\<close> is the answer to the
  search call of loop iteration \<open>k\<close>, made for channel \<open>c\<close>. \<open>clock w k j\<close> is what
  \<^verbatim>\<open>new Date().toISOString()\<close> returns while record \<open>j\<close> of iteration \<open>k\<close> is mapped.
  \<open>getTime w s\<close> is \<^verbatim>\<open>new Date(s).getTime()\<close>, with \<open>None\<close> for \<^verbatim>\<open>NaN\<close> (an
  unparseable date). \<open>engineOrder w xs i\<close> is the rank that the engine's sort gives to
  position \<open>i\<close> of the array \<open>xs\<close> when the comparator is not consistent (see the
  section on sorting).
\<close>

record world =
  userinfo :: "unit fetch_outcome"
  subscriptions :: "SubscriptionsData fetch_outcome"
  search :: "nat \<Rightarrow> string \<Rightarrow> SearchData fetch_outcome"
  clock :: "nat \<Rightarrow> nat \<Rightarrow> string"
  getTime :: "string \<Rightarrow> int option"
  engineOrder :: "SanitizedVideo list \<Rightarrow> nat \<Rightarrow> nat"

datatype call =
    GetUserinfo string        \<comment> \<open>bearer token\<close>
  | GetSubscriptions string   \<comment> \<open>bearer token\<close>
  | GetSearch string          \<comment> \<open>channel identifier\<close>

text \<open>\<^verbatim>\<open>searchParams.get("access_token")\<close>: \<open>None\<close> is \<^verbatim>\<open>null\<close>.\<close>

record request =
  access_token :: "string option"

subsection \<open>Responses\<close>

datatype details =
    UpstreamDetails ApiError   \<comment> \<open>\<^verbatim>\<open>details: subscriptionsData.error\<close>\<close>
  | ExceptionMessage js_error  \<comment> \<open>\<^verbatim>\<open>details: error.message\<close>\<close>

datatype body =
    ErrorBody string "details option"      \<comment> \<open>\<^verbatim>\<open>{ error, details? }\<close>\<close>
  | VideosBody "SanitizedVideo list" nat   \<comment> \<open>\<^verbatim>\<open>{ items, subscriptionCount }\<close>\<close>

record response =
  status :: int
  body :: body
  headers :: "(string \<times> string) list"

definition mkResponse :: "body \<Rightarrow> int \<Rightarrow> (string \<times> string) list \<Rightarrow> response" where
  "mkResponse b st hs = \<lparr>status = st, body = b, headers = hs\<rparr>"

text \<open>
  \<^verbatim>\<open>NextResponse.json(body, { status, headers })\<close>. The platform converts the status
  to an unsigned 16-bit integer (modulo 65536); the response constructor then throws a
  \<^verbatim>\<open>RangeError\<close> for a status outside 200..599 and a \<^verbatim>\<open>TypeError\<close> for a body
  together with a null-body status. \<open>headers\<close> holds the headers given by the caller
  (the content type is left out).
\<close>

definition NextResponse_json ::
  "body \<Rightarrow> int \<Rightarrow> (string \<times> string) list \<Rightarrow> js_error + response" where
  "NextResponse_json b st hs =
     (let st16 = st mod 65536
      in if st16 < 200 \<or> 599 < st16 then Inl (StatusRangeError st16)
         else if st16 = 204 \<or> st16 = 205 \<or> st16 = 304 then Inl (NullBodyStatusError st16)
         else Inr (mkResponse b st16 hs))"

definition cacheHeaders :: "(string \<times> string) list" where
  "cacheHeaders =
     [(''Cache-Control'', ''no-store, no-cache, must-revalidate, proxy-revalidate''),
      (''Pragma'', ''no-cache''),
      (''Expires'', ''0'')]"

subsection \<open>JavaScript operators on optional strings\<close>

text \<open>\<^verbatim>\<open>Boolean(x)\<close> for a string or \<^verbatim>\<open>undefined\<close>: the empty string is falsy.\<close>

definition truthy :: "string option \<Rightarrow> bool" where
  "truthy x = (case x of None \<Rightarrow> False | Some s \<Rightarrow> s \<noteq> [])"

text \<open>\<^verbatim>\<open>x || d\<close> for a string or \<^verbatim>\<open>undefined\<close> \<open>x\<close>.\<close>

definition or_else :: "string option \<Rightarrow> string \<Rightarrow> string" where
  "or_else x d = (case x of None \<Rightarrow> d | Some s \<Rightarrow> if s = [] then d else s)"

text \<open>\<^verbatim>\<open>subscriptionsData.error.code || 400\<close>: zero is falsy.\<close>

definition code_or :: "int option \<Rightarrow> int \<Rightarrow> int" where
  "code_or x d = (case x of None \<Rightarrow> d | Some c \<Rightarrow> if c = 0 then d else c)"

subsection \<open>Sanitizing the records of one channel\<close>

text \<open>The optional chains of the mapping function.\<close>

definition item_videoId :: "YouTubeVideo \<Rightarrow> string option" where
  "item_videoId item = Option.bind (video_id item) raw_videoId"

definition item_title :: "YouTubeVideo \<Rightarrow> string option" where
  "item_title item = Option.bind (video_snippet item) raw_title"

definition item_url :: "YouTubeVideo \<Rightarrow> string option" where
  "item_url item =
     Option.bind (Option.bind (Option.bind (video_snippet item) thumbnails) medium) raw_url"

definition item_publishedAt :: "YouTubeVideo \<Rightarrow> string option" where
  "item_publishedAt item = Option.bind (video_snippet item) raw_publishedAt"

text \<open>The arrow function given to \<^verbatim>\<open>map\<close>; \<open>now\<close> is the reading of the clock.\<close>

definition sanitizeVideo :: "string \<Rightarrow> YouTubeVideo \<Rightarrow> SanitizedVideo" where
  "sanitizeVideo now item =
     \<lparr>videoId = or_else (item_videoId item) [],
      title = or_else (item_title item) [],
      url = or_else (item_url item) [],
      publishedAt = or_else (item_publishedAt item) now\<rparr>"

text \<open>The arrow function given to \<^verbatim>\<open>filter\<close>.\<close>

definition keepVideo :: "SanitizedVideo \<Rightarrow> bool" where
  "keepVideo video = (videoId video \<noteq> [] \<and> url video \<noteq> [])"

text \<open>\<^verbatim>\<open>data.items?.map(...).filter(...) || []\<close>\<close>

definition sanitizedVideos ::
  "(nat \<Rightarrow> string) \<Rightarrow> YouTubeVideo list option \<Rightarrow> SanitizedVideo list" where
  "sanitizedVideos clk items =
     (case items of
        None \<Rightarrow> []
      | Some xs \<Rightarrow>
          filter keepVideo (map (\<lambda>(j, item). sanitizeVideo (clk j) item) (enumerate 0 xs)))"

subsection \<open>Channel identifiers\<close>

text \<open>\<^verbatim>\<open>items.map((sub) => sub.snippet?.resourceId?.channelId).filter(Boolean)\<close>\<close>

definition sub_channelId :: "Subscription \<Rightarrow> string option" where
  "sub_channelId sub = Option.bind (Option.bind (subscription_snippet sub) resourceId) channelId"

definition channelIdsOf :: "Subscription list \<Rightarrow> string list" where
  "channelIdsOf items = map the (filter truthy (map sub_channelId items))"

subsection \<open>Sorting\<close>

text \<open>
  The comparator \<^verbatim>\<open>(a, b) => new Date(b...).getTime() - new Date(a...).getTime()\<close>;
  \<open>None\<close> is \<^verbatim>\<open>NaN\<close>. Timestamps are integers, so the sign of the difference of
  two of them is that of the difference of the doubles.
\<close>

definition compareVideos ::
  "(string \<Rightarrow> int option) \<Rightarrow> SanitizedVideo \<Rightarrow> SanitizedVideo \<Rightarrow> int option" where
  "compareVideos gt a b =
     (case (gt (publishedAt b), gt (publishedAt a)) of
        (Some tb, Some ta) \<Rightarrow> Some (tb - ta)
      | _ \<Rightarrow> None)"

text \<open>
  \<^verbatim>\<open>Array.prototype.sort(comparefn)\<close>. A comparator result of \<^verbatim>\<open>NaN\<close> counts as
  \<open>0\<close>. The language fixes the result only for a consistent comparator: the sort is then
  stable, so its result is that of the stable insertion sort below, where \<open>x\<close> is moved
  behind \<open>y\<close> exactly when \<open>comparefn(x, y) > 0\<close>.
\<close>

fun insertBy :: "('a \<Rightarrow> 'a \<Rightarrow> int option) \<Rightarrow> 'a \<Rightarrow> 'a list \<Rightarrow> 'a list" where
  "insertBy cmp x [] = [x]"
| "insertBy cmp x (y # ys) =
     (case cmp x y of
        Some d \<Rightarrow> if 0 < d then y # insertBy cmp x ys else x # y # ys
      | None \<Rightarrow> x # y # ys)"

definition sortBy :: "('a \<Rightarrow> 'a \<Rightarrow> int option) \<Rightarrow> 'a list \<Rightarrow> 'a list" where
  "sortBy cmp xs = foldr (insertBy cmp) xs []"

text \<open>
  The comparator of the handler is consistent on an array exactly when every timestamp in
  it parses, or when it yields \<open>0\<close> or \<^verbatim>\<open>NaN\<close> on every pair (an unparseable timestamp
  is equivalent to every other one, so all of them must be equivalent to each other).
\<close>

definition comparatorConsistent ::
  "(string \<Rightarrow> int option) \<Rightarrow> SanitizedVideo list \<Rightarrow> bool" where
  "comparatorConsistent gt xs =
     (list_all (\<lambda>v. gt (publishedAt v) \<noteq> None) xs \<or>
      list_all (\<lambda>a. list_all (\<lambda>b.
        case compareVideos gt a b of Some d \<Rightarrow> d = 0 | None \<Rightarrow> True) xs) xs)"

text \<open>
  With a comparator that is not consistent the language leaves the order to the
  implementation; the result is still a permutation of the array. Which one is for the
  engine to say: \<open>rank i\<close> is the rank of position \<open>i\<close>, and the elements are put in the
  order of their ranks.
\<close>

definition permuteBy :: "(nat \<Rightarrow> nat) \<Rightarrow> 'a list \<Rightarrow> 'a list" where
  "permuteBy rank xs = map snd (sort_key (\<lambda>(i, x). rank i) (enumerate 0 xs))"

definition arraySort ::
  "(SanitizedVideo list \<Rightarrow> nat \<Rightarrow> nat) \<Rightarrow> (string \<Rightarrow> int option)
     \<Rightarrow> SanitizedVideo list \<Rightarrow> SanitizedVideo list" where
  "arraySort engine gt xs =
     (if comparatorConsistent gt xs then sortBy (compareVideos gt) xs
      else permuteBy (engine xs) xs)"

text \<open>\<^verbatim>\<open>allVideos.sort(...).slice(0, 10)\<close>\<close>

definition sortedVideos ::
  "(SanitizedVideo list \<Rightarrow> nat \<Rightarrow> nat) \<Rightarrow> (string \<Rightarrow> int option)
     \<Rightarrow> SanitizedVideo list \<Rightarrow> SanitizedVideo list" where
  "sortedVideos engine gt allVideos = take 10 (arraySort engine gt allVideos)"

subsection \<open>The loop over the channels\<close>

text \<open>
  \<^verbatim>\<open>for (const channelId of channelIds) { ... }\<close> with the accumulator \<^verbatim>\<open>allVideos\<close>.
  There is no \<^verbatim>\<open>try\<close> inside the loop: a rejected \<^verbatim>\<open>fetch\<close> and a body that does
  not parse leave the loop with the exception. \<^verbatim>\<open>continue\<close> is the recursive call
  with the accumulator unchanged.
\<close>

fun fetchVideos ::
  "world \<Rightarrow> nat \<Rightarrow> string list \<Rightarrow> SanitizedVideo list \<Rightarrow> call list
     \<Rightarrow> (js_error + SanitizedVideo list) \<times> call list" where
  "fetchVideos w k [] allVideos log = (Inr allVideos, log)"
| "fetchVideos w k (c # cs) allVideos log =
     (case search w k c of
        Rejects e \<Rightarrow> (Inl e, log @ [GetSearch c])
      | Resolves st parsed \<Rightarrow>
          (case parsed of
             Inl e \<Rightarrow> (Inl e, log @ [GetSearch c])
           | Inr data \<Rightarrow>
               if \<not> ok st \<or> search_error data \<noteq> None
               then fetchVideos w (Suc k) cs allVideos (log @ [GetSearch c])
               else fetchVideos w (Suc k) cs
                      (allVideos @ sanitizedVideos (clock w k) (search_items data))
                      (log @ [GetSearch c])))"

subsection \<open>The handler\<close>

text \<open>
  From \<^verbatim>\<open>// Get user's subscriptions\<close> to the end of the \<^verbatim>\<open>try\<close> block. The two
  copies of the handler differ here only in the headers of the success response, the
  parameter \<open>hs\<close>; the upstream-error response and the 404 response are built without
  headers in both.
\<close>

definition subscriptionsStage ::
  "(string \<times> string) list \<Rightarrow> world \<Rightarrow> string \<Rightarrow> call list
     \<Rightarrow> (js_error + response) \<times> call list" where
  "subscriptionsStage hs w accessToken log =
     (case subscriptions w of
        Rejects e \<Rightarrow> (Inl e, log @ [GetSubscriptions accessToken])
      | Resolves st parsed \<Rightarrow>
          (case parsed of
             Inl e \<Rightarrow> (Inl e, log @ [GetSubscriptions accessToken])
           | Inr subscriptionsData \<Rightarrow>
               (case subscriptions_error subscriptionsData of
                  Some err \<Rightarrow>
                    (NextResponse_json
                       (ErrorBody (or_else (error_message err) ''YouTube API Error'')
                          (Some (UpstreamDetails err)))
                       (code_or (error_code err) 400) [],
                     log @ [GetSubscriptions accessToken])
                | None \<Rightarrow>
                    (case subscriptions_items subscriptionsData of
                       None \<Rightarrow>
                         (NextResponse_json (ErrorBody ''No subscriptions found'' None) 404 [],
                          log @ [GetSubscriptions accessToken])
                     | Some [] \<Rightarrow>
                         (NextResponse_json (ErrorBody ''No subscriptions found'' None) 404 [],
                          log @ [GetSubscriptions accessToken])
                     | Some items \<Rightarrow>
                         (let channelIds = channelIdsOf items
                          in case fetchVideos w 0 channelIds []
                                    (log @ [GetSubscriptions accessToken]) of
                               (Inl e, log') \<Rightarrow> (Inl e, log')
                             | (Inr allVideos, log') \<Rightarrow>
                                 (NextResponse_json
                                    (VideosBody (sortedVideos (engineOrder w) (getTime w) allVideos)
                                       (length channelIds))
                                    200 hs,
                                  log'))))))"

text \<open>The \<^verbatim>\<open>try\<close> block of \<^verbatim>\<open>src/unnamed/part_000\<close>.\<close>

definition tryBlock :: "world \<Rightarrow> string \<Rightarrow> (js_error + response) \<times> call list" where
  "tryBlock w accessToken =
     (case userinfo w of
        Rejects e \<Rightarrow> (Inl e, [GetUserinfo accessToken])
      | Resolves st parsed \<Rightarrow>
          if \<not> ok st
          then (NextResponse_json (ErrorBody ''Invalid or expired access token'' None) 401
                  cacheHeaders,
                [GetUserinfo accessToken])
          else subscriptionsStage cacheHeaders w accessToken [GetUserinfo accessToken])"

text \<open>
  \<^verbatim>\<open>GET\<close> of \<^verbatim>\<open>src/unnamed/part_000\<close>. \<^verbatim>\<open>!accessToken\<close> holds for \<^verbatim>\<open>null\<close> and for
  the empty string. The \<^verbatim>\<open>catch\<close> block turns every exception into the 500 response.
\<close>

definition GET :: "world \<Rightarrow> request \<Rightarrow> response \<times> call list" where
  "GET w req =
     (if \<not> truthy (access_token req)
      then (mkResponse (ErrorBody ''Access token required'' None) 401 cacheHeaders, [])
      else
        (case tryBlock w (the (access_token req)) of
           (Inr r, log) \<Rightarrow> (r, log)
         | (Inl e, log) \<Rightarrow>
             (mkResponse (ErrorBody ''Internal server error'' (Some (ExceptionMessage e))) 500
                cacheHeaders,
              log)))"

text \<open>
  \<^verbatim>\<open>GET\<close> of \<^verbatim>\<open>src/app/api/videos/route.ts\<close>: no identity call, no headers on any
  response.
\<close>

definition GET_src_app :: "world \<Rightarrow> request \<Rightarrow> response \<times> call list" where
  "GET_src_app w req =
     (if \<not> truthy (access_token req)
      then (mkResponse (ErrorBody ''Access token required'' None) 401 [], [])
      else
        (case subscriptionsStage [] w (the (access_token req)) [] of
           (Inr r, log) \<Rightarrow> (r, log)
         | (Inl e, log) \<Rightarrow>
             (mkResponse (ErrorBody ''Internal server error'' (Some (ExceptionMessage e))) 500 [],
              log)))"

subsection \<open>Notions used in the statements\<close>

text \<open>
  The answer to a search call makes the loop skip the channel (\<^verbatim>\<open>continue\<close>), or it
  makes the loop throw, or the channel's records are sanitized and appended.
\<close>

definition skipsChannel :: "SearchData fetch_outcome \<Rightarrow> bool" where
  "skipsChannel r =
     (case r of
        Resolves st (Inr data) \<Rightarrow> \<not> ok st \<or> search_error data \<noteq> None
      | _ \<Rightarrow> False)"

definition answersJson :: "'a fetch_outcome \<Rightarrow> bool" where
  "answersJson r = (case r of Resolves st (Inr data) \<Rightarrow> True | _ \<Rightarrow> False)"

definition channelVideos :: "world \<Rightarrow> nat \<Rightarrow> string \<Rightarrow> SanitizedVideo list" where
  "channelVideos w k c =
     (case search w k c of
        Resolves st (Inr data) \<Rightarrow> sanitizedVideos (clock w k) (search_items data)
      | _ \<Rightarrow> [])"

text \<open>
  The concatenation, in iteration order, of the sanitized records of the channels that
  are not skipped; \<open>k\<close> is the number of the first iteration.
\<close>

definition collectedVideos :: "world \<Rightarrow> nat \<Rightarrow> string list \<Rightarrow> SanitizedVideo list" where
  "collectedVideos w k cs =
     concat (map (\<lambda>(i, c). channelVideos w i c)
               (filter (\<lambda>(i, c). \<not> skipsChannel (search w i c)) (enumerate k cs)))"

text \<open>The subscription records of the upstream answer, and the channels taken from them.\<close>

definition subscriptionRecords :: "world \<Rightarrow> Subscription list" where
  "subscriptionRecords w =
     (case subscriptions w of
        Resolves st (Inr data) \<Rightarrow>
          (case subscriptions_items data of Some items \<Rightarrow> items | None \<Rightarrow> [])
      | _ \<Rightarrow> [])"

definition allVideosOf :: "world \<Rightarrow> SanitizedVideo list" where
  "allVideosOf w = collectedVideos w 0 (channelIdsOf (subscriptionRecords w))"

text \<open>
  Sorted by publish timestamp, non-increasing, the timestamps compared as numbers after
  parsing: of two entries the one in front is not earlier. A comparison with \<^verbatim>\<open>NaN\<close>
  is false.
\<close>

definition notEarlier ::
  "(string \<Rightarrow> int option) \<Rightarrow> SanitizedVideo \<Rightarrow> SanitizedVideo \<Rightarrow> bool" where
  "notEarlier gt a b =
     (case (gt (publishedAt a), gt (publishedAt b)) of
        (Some ta, Some tb) \<Rightarrow> tb \<le> ta
      | _ \<Rightarrow> False)"

definition sortedByDate :: "(string \<Rightarrow> int option) \<Rightarrow> SanitizedVideo list \<Rightarrow> bool" where
  "sortedByDate gt vs = sorted_wrt (notEarlier gt) vs"

subsection \<open>A concrete request\<close>

text \<open>
  The end-to-end example of the specification, extended by a failing channel and by
  incomplete records: the user is subscribed to channels A, C and B (a fourth record has
  no channel identifier); A has three complete videos and one without thumbnail, the
  search for C answers 500 with an error payload, B has two videos. Where the comparator
  is not consistent, the engine of the example leaves the array as it is.
\<close>

definition exampleGetTime :: "string \<Rightarrow> int option" where
  "exampleGetTime =
     map_of
       [(''2024-01-05T00:00:00.000Z'', 1704412800000),
        (''2024-01-06T00:00:00.000Z'', 1704499200000),
        (''2024-01-07T00:00:00.000Z'', 1704585600000),
        (''2024-01-08T00:00:00.000Z'', 1704672000000),
        (''2024-01-09T00:00:00.000Z'', 1704758400000),
        (''2024-01-09T12:00:00.000Z'', 1704801600000)]"

definition exampleVideo :: "string \<Rightarrow> string \<Rightarrow> YouTubeVideo" where
  "exampleVideo vid published =
     \<lparr>video_id = Some \<lparr>raw_videoId = Some vid\<rparr>,
      video_snippet =
        Some \<lparr>raw_title = Some ''clip'',
              thumbnails = Some \<lparr>medium = Some \<lparr>raw_url = Some ''https://i.ytimg.com/m.jpg''\<rparr>\<rparr>,
              raw_publishedAt = Some published\<rparr>\<rparr>"

definition untitledVideo :: YouTubeVideo where
  "untitledVideo =
     \<lparr>video_id = Some \<lparr>raw_videoId = Some ''u1''\<rparr>,
      video_snippet =
        Some \<lparr>raw_title = None,
              thumbnails = Some \<lparr>medium = Some \<lparr>raw_url = Some ''https://i.ytimg.com/u.jpg''\<rparr>\<rparr>,
              raw_publishedAt = None\<rparr>\<rparr>"

definition noThumbnailVideo :: YouTubeVideo where
  "noThumbnailVideo =
     \<lparr>video_id = Some \<lparr>raw_videoId = Some ''a4''\<rparr>,
      video_snippet =
        Some \<lparr>raw_title = Some ''clip'', thumbnails = None,
              raw_publishedAt = Some ''2024-01-09T00:00:00.000Z''\<rparr>\<rparr>"

definition exampleSubscription :: "string option \<Rightarrow> Subscription" where
  "exampleSubscription c =
     \<lparr>subscription_snippet =
        Some \<lparr>resourceId = Some \<lparr>channelId = c\<rparr>, subscription_title = Some ''channel''\<rparr>\<rparr>"

definition exampleSearch :: "nat \<Rightarrow> string \<Rightarrow> SearchData fetch_outcome" where
  "exampleSearch k c =
     (if c = ''A'' then
        Resolves 200 (Inr \<lparr>search_error = None,
          search_items = Some [exampleVideo ''a1'' ''2024-01-08T00:00:00.000Z'',
                               exampleVideo ''a2'' ''2024-01-07T00:00:00.000Z'',
                               noThumbnailVideo,
                               exampleVideo ''a3'' ''2024-01-06T00:00:00.000Z'']\<rparr>)
      else if c = ''B'' then
        Resolves 200 (Inr \<lparr>search_error = None,
          search_items = Some [exampleVideo ''b1'' ''2024-01-09T00:00:00.000Z'',
                               exampleVideo ''b2'' ''2024-01-05T00:00:00.000Z'']\<rparr>)
      else
        Resolves 500 (Inr \<lparr>search_error =
                              Some \<lparr>error_message = Some ''Backend Error'', error_code = Some 500\<rparr>,
                            search_items = None\<rparr>))"

definition exampleSubscriptions :: "Subscription list" where
  "exampleSubscriptions =
     [exampleSubscription (Some ''A''), exampleSubscription None,
      exampleSubscription (Some ''C''), exampleSubscription (Some ''B'')]"

definition exampleSubscriptionsData :: SubscriptionsData where
  "exampleSubscriptionsData =
     \<lparr>subscriptions_error = None, subscriptions_items = Some exampleSubscriptions\<rparr>"

definition exampleWorld :: world where
  "exampleWorld =
     \<lparr>userinfo = Resolves 200 (Inr ()),
      subscriptions = Resolves 200 (Inr exampleSubscriptionsData),
      search = exampleSearch,
      clock = (\<lambda>k j. ''2024-01-09T12:00:00.000Z''),
      getTime = exampleGetTime,
      engineOrder = (\<lambda>xs i. i)\<rparr>"

definition exampleRequest :: request where
  "exampleRequest = \<lparr>access_token = Some ''ya29.token''\<rparr>"

text \<open>The sanitized videos of the example, by identifier and timestamp.\<close>

definition exampleSanitized :: "string \<Rightarrow> string \<Rightarrow> SanitizedVideo" where
  "exampleSanitized vid published =
     \<lparr>videoId = vid, title = ''clip'', url = ''https://i.ytimg.com/m.jpg'',
      publishedAt = published\<rparr>"

definition exampleItems :: "SanitizedVideo list" where
  "exampleItems =
     [exampleSanitized ''b1'' ''2024-01-09T00:00:00.000Z'',
      exampleSanitized ''a1'' ''2024-01-08T00:00:00.000Z'',
      exampleSanitized ''a2'' ''2024-01-07T00:00:00.000Z'',
      exampleSanitized ''a3'' ''2024-01-06T00:00:00.000Z'',
      exampleSanitized ''b2'' ''2024-01-05T00:00:00.000Z'']"

text \<open>
  Variants of the example: an unparseable timestamp, a rejected search call, no
  subscriptions, a subscriptions answer with a non-success status and no error member, a
  subscriptions answer with an error member.
\<close>

definition garbledItems :: "SanitizedVideo list" where
  "garbledItems =
     [exampleSanitized ''x1'' ''2024-01-05T00:00:00.000Z'',
      exampleSanitized ''x2'' ''not a date'',
      exampleSanitized ''x3'' ''2024-01-08T00:00:00.000Z'']"

definition quotaError :: ApiError where
  "quotaError = \<lparr>error_message = Some ''quotaExceeded'', error_code = Some 403\<rparr>"

definition statusOnlyWorld :: world where
  "statusOnlyWorld = exampleWorld\<lparr>subscriptions := Resolves 500 (Inr exampleSubscriptionsData)\<rparr>"

definition upstreamErrorWorld :: world where
  "upstreamErrorWorld =
     exampleWorld
       \<lparr>subscriptions :=
          Resolves 403 (Inr \<lparr>subscriptions_error = Some quotaError, subscriptions_items = None\<rparr>)\<rparr>"

definition garbledWorld :: world where
  "garbledWorld =
     exampleWorld
       \<lparr>subscriptions :=
          Resolves 200 (Inr \<lparr>subscriptions_error = None,
            subscriptions_items = Some [exampleSubscription (Some ''X'')]\<rparr>),
        search := (\<lambda>k c.
          Resolves 200 (Inr \<lparr>search_error = None,
            search_items = Some [exampleVideo ''x1'' ''2024-01-05T00:00:00.000Z'',
                                 exampleVideo ''x2'' ''not a date'',
                                 exampleVideo ''x3'' ''2024-01-08T00:00:00.000Z'']\<rparr>))\<rparr>"

definition rejectingWorld :: world where
  "rejectingWorld =
     exampleWorld
       \<lparr>search := (\<lambda>k c. if c = ''C'' then Rejects (NetworkError ''fetch failed'')
                         else exampleSearch k c)\<rparr>"

definition noSubscriptionsWorld :: world where
  "noSubscriptionsWorld =
     exampleWorld
       \<lparr>subscriptions :=
          Resolves 200 (Inr \<lparr>subscriptions_error = None, subscriptions_items = Some []\<rparr>)\<rparr>"

section \<open>Properties\<close>

subsection \<open>The sort\<close>

lemma set_insertBy: "set (insertBy cmp x ys) = insert x (set ys)"
  by (induction ys) (auto split: option.splits)

lemma length_insertBy: "length (insertBy cmp x ys) = Suc (length ys)"
  by (induction ys) (auto split: option.splits)

lemma set_sortBy: "set (sortBy cmp xs) = set xs"
  by (induction xs) (simp_all add: sortBy_def set_insertBy)

lemma length_sortBy: "length (sortBy cmp xs) = length xs"
  by (induction xs) (simp_all add: sortBy_def length_insertBy)

lemma set_permuteBy: "set (permuteBy rank xs) = set xs"
proof -
  have "set (permuteBy rank xs) = snd ` set (enumerate 0 xs)"
    by (simp add: permuteBy_def)
  also have "\<dots> = set (map snd (enumerate 0 xs))"
    by (simp only: set_map)
  also have "\<dots> = set xs"
    by (simp only: map_snd_enumerate)
  finally show ?thesis .
qed

lemma length_permuteBy: "length (permuteBy rank xs) = length xs"
  by (simp add: permuteBy_def)

lemma set_arraySort: "set (arraySort engine gt xs) = set xs"
  by (simp add: arraySort_def set_sortBy set_permuteBy)

lemma length_arraySort: "length (arraySort engine gt xs) = length xs"
  by (simp add: arraySort_def length_sortBy length_permuteBy)

text \<open>Whatever the comparator and the engine, the sort returns a permutation.\<close>

lemma mset_insertBy: "mset (insertBy cmp x ys) = add_mset x (mset ys)"
  by (induction ys) (auto split: option.splits)

lemma mset_sortBy: "mset (sortBy cmp xs) = mset xs"
  by (induction xs) (simp_all add: sortBy_def mset_insertBy)

lemma mset_permuteBy: "mset (permuteBy rank xs) = mset xs"
proof -
  have "mset (permuteBy rank xs) = image_mset snd (mset (enumerate 0 xs))"
    by (simp add: permuteBy_def)
  also have "\<dots> = mset (map snd (enumerate 0 xs))"
    by (simp only: mset_map)
  also have "\<dots> = mset xs"
    by (simp only: map_snd_enumerate)
  finally show ?thesis .
qed

lemma mset_arraySort: "mset (arraySort engine gt xs) = mset xs"
  by (simp add: arraySort_def mset_sortBy mset_permuteBy)

lemma set_sortedVideos: "set (sortedVideos engine gt vs) \<subseteq> set vs"
  using set_take_subset [of 10 "arraySort engine gt vs"]
  by (simp add: sortedVideos_def set_arraySort)

lemma length_sortedVideos: "length (sortedVideos engine gt vs) \<le> 10"
  by (simp add: sortedVideos_def)

lemma not_sorted_with_incomparable:
  assumes "x \<in> set ys" "2 \<le> length ys" "\<And>y. \<not> P x y" "\<And>y. \<not> P y x"
  shows "\<not> sorted_wrt P ys"
proof
  assume s: "sorted_wrt P ys"
  from assms(1) obtain k where k: "k < length ys" "ys ! k = x"
    by (auto simp: in_set_conv_nth)
  show False
  proof (cases k)
    case 0
    with k assms(2) s have "P (ys ! 0) (ys ! 1)"
      by (auto simp: sorted_wrt_iff_nth_less)
    with k 0 assms(3) show False by simp
  next
    case (Suc m)
    with k s have "P (ys ! 0) (ys ! k)"
      by (auto simp: sorted_wrt_iff_nth_less)
    with k assms(4) show False by simp
  qed
qed

lemma compareVideos_Some:
  "gt (publishedAt x) = Some tx \<Longrightarrow> gt (publishedAt y) = Some ty \<Longrightarrow>
   compareVideos gt x y = Some (ty - tx)"
  by (simp add: compareVideos_def)

text \<open>Inserting a video with a valid date into a sorted list of such videos keeps it sorted.\<close>

lemma sorted_insertBy:
  assumes "gt (publishedAt x) \<noteq> None" "\<forall>v\<in>set ys. gt (publishedAt v) \<noteq> None"
    "sorted_wrt (notEarlier gt) ys"
  shows "sorted_wrt (notEarlier gt) (insertBy (compareVideos gt) x ys)"
  using assms
proof (induction ys)
  case Nil
  then show ?case by simp
next
  case (Cons y ys)
  from Cons.prems obtain tx ty where t: "gt (publishedAt x) = Some tx" "gt (publishedAt y) = Some ty"
    by auto
  show ?case
  proof (cases "0 < ty - tx")
    case True
    have "sorted_wrt (notEarlier gt) (insertBy (compareVideos gt) x ys)"
      using Cons by simp
    moreover have "notEarlier gt y x" using True t by (simp add: notEarlier_def)
    ultimately show ?thesis using True t Cons.prems(3)
      by (simp add: compareVideos_Some set_insertBy)
  next
    case False
    have "notEarlier gt x z" if "z \<in> set ys" for z
    proof -
      from that Cons.prems obtain tz where tz: "gt (publishedAt z) = Some tz" by auto
      from that Cons.prems(3) have "notEarlier gt y z" by simp
      then show ?thesis using t tz False by (simp add: notEarlier_def)
    qed
    then show ?thesis using False t Cons.prems(3)
      by (simp add: compareVideos_Some notEarlier_def)
  qed
qed

lemma sorted_sortBy:
  "\<forall>v\<in>set xs. gt (publishedAt v) \<noteq> None \<Longrightarrow>
   sorted_wrt (notEarlier gt) (sortBy (compareVideos gt) xs)"
proof (induction xs)
  case Nil
  then show ?case by (simp add: sortBy_def)
next
  case (Cons x xs)
  then have "sorted_wrt (notEarlier gt) (insertBy (compareVideos gt) x (sortBy (compareVideos gt) xs))"
    by (intro sorted_insertBy) (simp_all add: set_sortBy)
  then show ?case by (simp add: sortBy_def)
qed

text \<open>When every timestamp parses, the sort of the engine is the stable insertion sort.\<close>

lemma arraySort_valid_dates:
  "\<forall>v\<in>set xs. gt (publishedAt v) \<noteq> None \<Longrightarrow>
   arraySort engine gt xs = sortBy (compareVideos gt) xs"
  by (simp add: arraySort_def comparatorConsistent_def list_all_iff)

lemma sortedByDate_sortedVideos:
  "\<forall>v\<in>set xs. gt (publishedAt v) \<noteq> None \<Longrightarrow> sortedByDate gt (sortedVideos engine gt xs)"
  unfolding sortedByDate_def sortedVideos_def
  by (simp add: arraySort_valid_dates sorted_wrt_take sorted_sortBy)

subsection \<open>Building a response\<close>

lemma NextResponse_json_Inr:
  "NextResponse_json b st hs = Inr r \<Longrightarrow>
   status r = st mod 65536 \<and> 200 \<le> status r \<and> status r \<le> 599 \<and> body r = b \<and> headers r = hs"
  by (auto simp: NextResponse_json_def Let_def mkResponse_def split: if_splits)

subsection \<open>The loop and the handler\<close>

lemma collectedVideos_Nil: "collectedVideos w k [] = []"
  by (simp add: collectedVideos_def)

lemma collectedVideos_Cons:
  "collectedVideos w k (c # cs) =
     (if skipsChannel (search w k c) then [] else channelVideos w k c)
       @ collectedVideos w (Suc k) cs"
  by (simp add: collectedVideos_def)

lemma fetchVideos_Inr:
  "fetchVideos w k cs acc log = (Inr vs, log') \<Longrightarrow>
   vs = acc @ collectedVideos w k cs \<and> log' = log @ map GetSearch cs"
proof (induction cs arbitrary: k acc log)
  case Nil
  then show ?case by (simp add: collectedVideos_Nil)
next
  case (Cons c cs)
  from Cons.prems obtain st data where r: "search w k c = Resolves st (Inr data)"
    by (auto split: fetch_outcome.splits sum.splits)
  show ?case
  proof (cases "\<not> ok st \<or> search_error data \<noteq> None")
    case True
    with Cons.prems r have "fetchVideos w (Suc k) cs acc (log @ [GetSearch c]) = (Inr vs, log')"
      by simp
    from Cons.IH [OF this] True r show ?thesis
      by (simp add: collectedVideos_Cons skipsChannel_def)
  next
    case False
    with Cons.prems r have
      "fetchVideos w (Suc k) cs (acc @ sanitizedVideos (clock w k) (search_items data))
         (log @ [GetSearch c]) = (Inr vs, log')"
      by simp
    from Cons.IH [OF this] False r show ?thesis
      by (simp add: collectedVideos_Cons skipsChannel_def channelVideos_def)
  qed
qed

lemma fetchVideos_total:
  "\<forall>(i, c)\<in>set (enumerate k cs). answersJson (search w i c) \<Longrightarrow>
   fetchVideos w k cs acc log = (Inr (acc @ collectedVideos w k cs), log @ map GetSearch cs)"
proof (induction cs arbitrary: k acc log)
  case Nil
  then show ?case by (simp add: collectedVideos_Nil)
next
  case (Cons c cs)
  from Cons.prems obtain st data where r: "search w k c = Resolves st (Inr data)"
    by (auto simp: answersJson_def split: fetch_outcome.splits sum.splits)
  from Cons.prems have rest: "\<forall>(i, c)\<in>set (enumerate (Suc k) cs). answersJson (search w i c)"
    by simp
  show ?case
    using r Cons.IH [OF rest]
    by (simp add: collectedVideos_Cons skipsChannel_def channelVideos_def)
qed

lemma keepVideo_sanitizedVideos: "v \<in> set (sanitizedVideos clk items) \<Longrightarrow> keepVideo v"
  by (auto simp: sanitizedVideos_def split: option.splits)

lemma keepVideo_channelVideos: "v \<in> set (channelVideos w k c) \<Longrightarrow> keepVideo v"
  by (auto simp: channelVideos_def dest: keepVideo_sanitizedVideos
           split: fetch_outcome.splits sum.splits)

lemma keepVideo_collectedVideos: "v \<in> set (collectedVideos w k cs) \<Longrightarrow> keepVideo v"
  by (auto simp: collectedVideos_def dest: keepVideo_channelVideos)

lemma subscriptionsStage_VideosBody:
  assumes "subscriptionsStage hs w tok log = (Inr r, log')" "body r = VideosBody vs n"
  shows "vs = sortedVideos (engineOrder w) (getTime w) (allVideosOf w) \<and>
         n = length (channelIdsOf (subscriptionRecords w)) \<and>
         status r = 200 \<and> headers r = hs \<and>
         log' = log @ GetSubscriptions tok # map GetSearch (channelIdsOf (subscriptionRecords w))"
proof -
  from assms obtain st data where s: "subscriptions w = Resolves st (Inr data)"
    by (auto simp: subscriptionsStage_def split: fetch_outcome.splits sum.splits)
  from assms s have e: "subscriptions_error data = None"
    by (auto simp: subscriptionsStage_def NextResponse_json_def Let_def mkResponse_def
             split: option.splits if_splits)
  from assms s e obtain x xs where i: "subscriptions_items data = Some (x # xs)"
    by (auto simp: subscriptionsStage_def NextResponse_json_def Let_def mkResponse_def
             split: option.splits list.splits if_splits)
  have recs: "subscriptionRecords w = x # xs"
    using s i by (simp add: subscriptionRecords_def)
  obtain res l where f:
    "fetchVideos w 0 (channelIdsOf (x # xs)) [] (log @ [GetSubscriptions tok]) = (res, l)"
    by (cases "fetchVideos w 0 (channelIdsOf (x # xs)) [] (log @ [GetSubscriptions tok])")
  from assms s e i f obtain allVideos where a: "res = Inr allVideos"
    by (cases res) (auto simp: subscriptionsStage_def)
  from fetchVideos_Inr [OF f [unfolded a]]
  have "allVideos = allVideosOf w" "l = log @ GetSubscriptions tok # map GetSearch (channelIdsOf (x # xs))"
    by (simp_all add: allVideosOf_def recs)
  with assms s e i f a recs show ?thesis
    by (auto simp: subscriptionsStage_def NextResponse_json_def Let_def mkResponse_def)
qed

lemma GET_VideosBody:
  assumes "GET w req = (r, log)" "body r = VideosBody vs n"
  shows "vs = sortedVideos (engineOrder w) (getTime w) (allVideosOf w) \<and>
         n = length (channelIdsOf (subscriptionRecords w)) \<and>
         status r = 200 \<and> headers r = cacheHeaders \<and>
         log = GetUserinfo (the (access_token req)) # GetSubscriptions (the (access_token req))
                 # map GetSearch (channelIdsOf (subscriptionRecords w))"
proof -
  from assms have t: "truthy (access_token req)"
    by (auto simp: GET_def mkResponse_def split: if_splits)
  obtain res l where tb: "tryBlock w (the (access_token req)) = (res, l)"
    by (cases "tryBlock w (the (access_token req))")
  with assms t have res: "res = Inr r" and l: "l = log"
    by (cases res; auto simp: GET_def mkResponse_def)+
  from tb res obtain st parsed where u: "userinfo w = Resolves st parsed"
    by (auto simp: tryBlock_def split: fetch_outcome.splits)
  from tb res u assms have "ok st"
    by (auto simp: tryBlock_def NextResponse_json_def Let_def mkResponse_def split: if_splits)
  with tb res u have
    "subscriptionsStage cacheHeaders w (the (access_token req))
       [GetUserinfo (the (access_token req))] = (Inr r, l)"
    by (simp add: tryBlock_def)
  from subscriptionsStage_VideosBody [OF this assms(2)] l show ?thesis by simp
qed

lemma GET_all_answer:
  assumes "access_token req = Some tok" "tok \<noteq> []"
    and "userinfo w = Resolves st u" "ok st"
    and "subscriptions w = Resolves st' (Inr data)" "subscriptions_error data = None"
    and "subscriptions_items data = Some items" "items \<noteq> []"
    and "\<forall>(k, c)\<in>set (enumerate 0 (channelIdsOf items)). answersJson (search w k c)"
  shows "GET w req =
     (\<lparr>status = 200,
       body = VideosBody
         (sortedVideos (engineOrder w) (getTime w)
            (concat (map (\<lambda>(k, c). channelVideos w k c)
               (filter (\<lambda>(k, c). \<not> skipsChannel (search w k c))
                  (enumerate 0 (channelIdsOf items))))))
         (length (channelIdsOf items)),
       headers = cacheHeaders\<rparr>,
      GetUserinfo tok # GetSubscriptions tok # map GetSearch (channelIdsOf items))"
proof -
  obtain x xs where items: "items = x # xs"
    using assms(8) by (cases items) auto
  have f: "fetchVideos w 0 (channelIdsOf items) [] [GetUserinfo tok, GetSubscriptions tok] =
        (Inr (collectedVideos w 0 (channelIdsOf items)),
         [GetUserinfo tok, GetSubscriptions tok] @ map GetSearch (channelIdsOf items))"
    using fetchVideos_total [OF assms(9), of "[]" "[GetUserinfo tok, GetSubscriptions tok]"]
    by simp
  have "subscriptionsStage cacheHeaders w tok [GetUserinfo tok] =
     (Inr \<lparr>status = 200,
       body = VideosBody (sortedVideos (engineOrder w) (getTime w) (collectedVideos w 0 (channelIdsOf items)))
                (length (channelIdsOf items)),
       headers = cacheHeaders\<rparr>,
      GetUserinfo tok # GetSubscriptions tok # map GetSearch (channelIdsOf items))"
    using assms(5,6,7) f unfolding items
    by (simp add: subscriptionsStage_def NextResponse_json_def Let_def mkResponse_def)
  then show ?thesis
    using assms(1-4)
    by (simp add: GET_def truthy_def tryBlock_def collectedVideos_def)
qed

text \<open>
  The same, without reference to the engine: the items are the first 10 entries of a
  permutation of the collected videos, which is the stable sort when the dates parse.
\<close>

lemma GET_all_answer_perm:
  assumes "access_token req = Some tok" "tok \<noteq> []"
    and "userinfo w = Resolves st u" "ok st"
    and "subscriptions w = Resolves st' (Inr data)" "subscriptions_error data = None"
    and "subscriptions_items data = Some items" "items \<noteq> []"
    and "\<forall>(k, c)\<in>set (enumerate 0 (channelIdsOf items)). answersJson (search w k c)"
  shows "\<exists>ys. mset ys = mset (collectedVideos w 0 (channelIdsOf items)) \<and>
           ((\<forall>v\<in>set ys. getTime w (publishedAt v) \<noteq> None) \<longrightarrow>
              ys = sortBy (compareVideos (getTime w)) (collectedVideos w 0 (channelIdsOf items))) \<and>
           GET w req =
             (\<lparr>status = 200,
               body = VideosBody (take 10 ys) (length (channelIdsOf items)),
               headers = cacheHeaders\<rparr>,
              GetUserinfo tok # GetSubscriptions tok # map GetSearch (channelIdsOf items))"
proof -
  let ?all = "collectedVideos w 0 (channelIdsOf items)"
  let ?ys = "arraySort (engineOrder w) (getTime w) ?all"
  have "mset ?ys = mset ?all"
    by (rule mset_arraySort)
  moreover have "?ys = sortBy (compareVideos (getTime w)) ?all"
    if "\<forall>v\<in>set ?ys. getTime w (publishedAt v) \<noteq> None"
    using that by (intro arraySort_valid_dates) (simp add: set_arraySort)
  moreover from GET_all_answer [OF assms] have "GET w req =
     (\<lparr>status = 200, body = VideosBody (take 10 ?ys) (length (channelIdsOf items)),
       headers = cacheHeaders\<rparr>,
      GetUserinfo tok # GetSubscriptions tok # map GetSearch (channelIdsOf items))"
    by (simp add: sortedVideos_def collectedVideos_def)
  ultimately show ?thesis by blast
qed

lemma fetchVideos_subscriptions_update:
  "fetchVideos (w\<lparr>subscriptions := s\<rparr>) k cs acc log = fetchVideos w k cs acc log"
  by (induction cs arbitrary: k acc log) (simp_all split: fetch_outcome.splits sum.splits)

lemma subscriptionsStage_status:
  "subscriptions w = Resolves st parsed \<Longrightarrow>
   subscriptionsStage hs (w\<lparr>subscriptions := Resolves st2 parsed\<rparr>) tok log =
   subscriptionsStage hs w tok log"
  by (simp add: subscriptionsStage_def fetchVideos_subscriptions_update Let_def
        split: sum.splits option.splits list.splits prod.splits)

lemma GET_status:
  "subscriptions w = Resolves st parsed \<Longrightarrow>
   GET (w\<lparr>subscriptions := Resolves st2 parsed\<rparr>) req = GET w req"
  by (simp add: GET_def tryBlock_def subscriptionsStage_status split: fetch_outcome.splits)

lemma subscriptionsStage_UpstreamDetails:
  assumes "subscriptionsStage hs w tok log = (Inr r, log')"
    "body r = ErrorBody m (Some (UpstreamDetails err))"
  shows "\<exists>st data. subscriptions w = Resolves st (Inr data) \<and> subscriptions_error data = Some err"
proof -
  from assms obtain st data where s: "subscriptions w = Resolves st (Inr data)"
    by (auto simp: subscriptionsStage_def split: fetch_outcome.splits sum.splits)
  have "subscriptions_error data = Some err"
  proof (cases "subscriptions_error data")
    case None
    show ?thesis
    proof (cases "subscriptions_items data")
      case n: None
      with assms s None show ?thesis
        by (auto simp: subscriptionsStage_def NextResponse_json_def Let_def mkResponse_def)
    next
      case (Some items)
      show ?thesis
      proof (cases items)
        case Nil
        with assms s None Some show ?thesis
          by (auto simp: subscriptionsStage_def NextResponse_json_def Let_def mkResponse_def)
      next
        case (Cons x xs)
        obtain res l where f:
          "fetchVideos w 0 (channelIdsOf (x # xs)) [] (log @ [GetSubscriptions tok]) = (res, l)"
          by (cases "fetchVideos w 0 (channelIdsOf (x # xs)) [] (log @ [GetSubscriptions tok])")
        with assms s None Some Cons show ?thesis
          by (cases res)
             (auto simp: subscriptionsStage_def NextResponse_json_def Let_def mkResponse_def)
      qed
    qed
  next
    case (Some e)
    with assms s show ?thesis
      by (auto simp: subscriptionsStage_def NextResponse_json_def Let_def mkResponse_def
               split: if_splits)
  qed
  with s show ?thesis by blast
qed

lemma GET_UpstreamDetails:
  assumes "GET w req = (r, log)" "body r = ErrorBody m (Some (UpstreamDetails err))"
  shows "\<exists>st data. subscriptions w = Resolves st (Inr data) \<and> subscriptions_error data = Some err"
proof -
  from assms have t: "truthy (access_token req)"
    by (auto simp: GET_def mkResponse_def split: if_splits)
  obtain res l where tb: "tryBlock w (the (access_token req)) = (res, l)"
    by (cases "tryBlock w (the (access_token req))")
  with assms t have res: "res = Inr r"
    by (cases res) (auto simp: GET_def mkResponse_def)
  from tb res obtain st parsed where u: "userinfo w = Resolves st parsed"
    by (auto simp: tryBlock_def split: fetch_outcome.splits)
  from tb res u assms have "ok st"
    by (auto simp: tryBlock_def NextResponse_json_def Let_def mkResponse_def split: if_splits)
  with tb res u have
    "subscriptionsStage cacheHeaders w (the (access_token req))
       [GetUserinfo (the (access_token req))] = (Inr r, l)"
    by (simp add: tryBlock_def)
  from subscriptionsStage_UpstreamDetails [OF this assms(2)] show ?thesis .
qed

lemma GET_no_subscriptions:
  "access_token req = Some tok \<Longrightarrow> tok \<noteq> [] \<Longrightarrow>
   userinfo w = Resolves st u \<Longrightarrow> ok st \<Longrightarrow>
   subscriptions w = Resolves st' (Inr data) \<Longrightarrow> subscriptions_error data = None \<Longrightarrow>
   subscriptions_items data = None \<or> subscriptions_items data = Some [] \<Longrightarrow>
   GET w req = (\<lparr>status = 404, body = ErrorBody ''No subscriptions found'' None, headers = []\<rparr>,
                [GetUserinfo tok, GetSubscriptions tok])"
  by (auto simp: GET_def truthy_def tryBlock_def subscriptionsStage_def NextResponse_json_def Let_def
        mkResponse_def)

subsection \<open>The two copies of the handler\<close>

lemma fetchVideos_log:
  "fetchVideos w k cs acc (l1 @ l2) =
     (fst (fetchVideos w k cs acc l2), l1 @ snd (fetchVideos w k cs acc l2))"
proof (induction cs arbitrary: k acc l2)
  case Nil
  then show ?case by simp
next
  case (Cons c cs)
  show ?case
  proof (cases "search w k c")
    case (Rejects e)
    then show ?thesis by simp
  next
    case (Resolves st parsed)
    show ?thesis
    proof (cases parsed)
      case (Inl e)
      with Resolves show ?thesis by simp
    next
      case (Inr data)
      with Resolves Cons.IH [of "Suc k" _ "l2 @ [GetSearch c]"] show ?thesis by simp
    qed
  qed
qed

lemma subscriptionsStage_headers_log:
  "subscriptionsStage hs w tok log =
     (case subscriptionsStage [] w tok [] of
        (Inl e, l) \<Rightarrow> (Inl e, log @ l)
      | (Inr r, l) \<Rightarrow>
          (Inr (case body r of VideosBody vs n \<Rightarrow> r\<lparr>headers := hs\<rparr> | ErrorBody m d \<Rightarrow> r),
           log @ l))"
proof -
  have f: "fetchVideos w 0 cs [] (log @ [GetSubscriptions tok]) =
        (fst (fetchVideos w 0 cs [] [GetSubscriptions tok]),
         log @ snd (fetchVideos w 0 cs [] [GetSubscriptions tok]))" for cs
    by (rule fetchVideos_log)
  show ?thesis
    unfolding subscriptionsStage_def
    by (simp add: f NextResponse_json_def Let_def mkResponse_def
          split: fetch_outcome.splits sum.splits option.splits list.splits prod.splits)
qed

text \<open>
  With an accepted token, the two copies of the handler answer with the same status and
  body, and make the same calls after the identity call.
\<close>

lemma GET_src_app_agrees:
  assumes "truthy (access_token req)" "userinfo w = Resolves st u" "ok st"
  shows "status (fst (GET w req)) = status (fst (GET_src_app w req)) \<and>
         body (fst (GET w req)) = body (fst (GET_src_app w req)) \<and>
         snd (GET w req) = GetUserinfo (the (access_token req)) # snd (GET_src_app w req)"
proof -
  obtain res l where s: "subscriptionsStage [] w (the (access_token req)) [] = (res, l)"
    by (cases "subscriptionsStage [] w (the (access_token req)) []")
  show ?thesis
    using assms s
      subscriptionsStage_headers_log [of cacheHeaders w "the (access_token req)"
        "[GetUserinfo (the (access_token req))]"]
    by (cases res) (auto simp: GET_def GET_src_app_def tryBlock_def mkResponse_def split: body.splits)
qed

lemma fetchVideos_userinfo_update:
  "fetchVideos (w\<lparr>userinfo := x\<rparr>) k cs acc log = fetchVideos w k cs acc log"
  by (induction cs arbitrary: k acc log) (simp_all split: fetch_outcome.splits sum.splits)

lemma subscriptionsStage_userinfo_update:
  "subscriptionsStage hs (w\<lparr>userinfo := x\<rparr>) tok log = subscriptionsStage hs w tok log"
  by (simp add: subscriptionsStage_def fetchVideos_userinfo_update Let_def
        split: fetch_outcome.splits sum.splits option.splits list.splits prod.splits)

lemma GET_src_app_ignores_userinfo:
  "GET_src_app (w\<lparr>userinfo := x\<rparr>) req = GET_src_app w req"
  by (simp add: GET_src_app_def subscriptionsStage_userinfo_update)

text \<open>
  The copy without identity call answers every request as the other copy answers it when
  the identity endpoint accepts the token, up to the headers and the identity call.
\<close>

lemma GET_src_app_simulated:
  assumes "truthy (access_token req)"
  shows "status (fst (GET_src_app w req)) =
           status (fst (GET (w\<lparr>userinfo := Resolves 200 (Inr ())\<rparr>) req)) \<and>
         body (fst (GET_src_app w req)) =
           body (fst (GET (w\<lparr>userinfo := Resolves 200 (Inr ())\<rparr>) req)) \<and>
         GetUserinfo (the (access_token req)) # snd (GET_src_app w req) =
           snd (GET (w\<lparr>userinfo := Resolves 200 (Inr ())\<rparr>) req)"
proof -
  have "userinfo (w\<lparr>userinfo := Resolves 200 (Inr ())\<rparr>) = Resolves 200 (Inr ())"
    by simp
  from GET_src_app_agrees [OF assms this] show ?thesis
    by (simp add: ok_def GET_src_app_ignores_userinfo)
qed

lemma GET_src_app_missing_token:
  "\<not> truthy (access_token req) \<Longrightarrow>
   GET_src_app w req =
     (\<lparr>status = 401, body = ErrorBody ''Access token required'' None, headers = []\<rparr>, [])"
  by (simp add: GET_src_app_def mkResponse_def)

text \<open>
  Which responses of the copy with headers carry them: all but the 404 response and the
  upstream-error response.
\<close>

lemma subscriptionsStage_headers:
  assumes "subscriptionsStage hs w tok log = (Inr r, log')"
  shows "(case body r of
            VideosBody vs n \<Rightarrow> headers r = hs
          | ErrorBody m d \<Rightarrow> headers r = [] \<and>
              (d = None \<and> m = ''No subscriptions found'' \<and> status r = 404 \<or>
               (\<exists>err. d = Some (UpstreamDetails err))))"
proof -
  from assms obtain st data where s: "subscriptions w = Resolves st (Inr data)"
    by (auto simp: subscriptionsStage_def split: fetch_outcome.splits sum.splits)
  show ?thesis
  proof (cases "subscriptions_error data")
    case (Some err)
    with assms s show ?thesis
      by (auto simp: subscriptionsStage_def NextResponse_json_def Let_def mkResponse_def
               split: if_splits)
  next
    case None
    show ?thesis
    proof (cases "subscriptions_items data")
      case n: None
      with assms s None show ?thesis
        by (auto simp: subscriptionsStage_def NextResponse_json_def Let_def mkResponse_def)
    next
      case (Some items)
      show ?thesis
      proof (cases items)
        case Nil
        with assms s None Some show ?thesis
          by (auto simp: subscriptionsStage_def NextResponse_json_def Let_def mkResponse_def)
      next
        case (Cons x xs)
        obtain res l where f:
          "fetchVideos w 0 (channelIdsOf (x # xs)) [] (log @ [GetSubscriptions tok]) = (res, l)"
          by (cases "fetchVideos w 0 (channelIdsOf (x # xs)) [] (log @ [GetSubscriptions tok])")
        with assms s None Some Cons show ?thesis
          by (cases res)
             (auto simp: subscriptionsStage_def NextResponse_json_def Let_def mkResponse_def)
      qed
    qed
  qed
qed

lemma GET_src_app_no_headers: "headers (fst (GET_src_app w req)) = []"
proof (cases "truthy (access_token req)")
  case False
  then show ?thesis by (simp add: GET_src_app_missing_token)
next
  case True
  obtain res l where s: "subscriptionsStage [] w (the (access_token req)) [] = (res, l)"
    by (cases "subscriptionsStage [] w (the (access_token req)) []")
  show ?thesis
  proof (cases res)
    case (Inl e)
    with True s show ?thesis by (simp add: GET_src_app_def mkResponse_def)
  next
    case (Inr r)
    from subscriptionsStage_headers [OF s [unfolded Inr]] have "headers r = []"
      by (cases "body r") auto
    with True s Inr show ?thesis by (simp add: GET_src_app_def)
  qed
qed

lemma GET_headers:
  "headers (fst (GET w req)) = cacheHeaders \<or>
   headers (fst (GET w req)) = [] \<and>
     (body (fst (GET w req)) = ErrorBody ''No subscriptions found'' None \<and>
        status (fst (GET w req)) = 404 \<or>
      (\<exists>m err. body (fst (GET w req)) = ErrorBody m (Some (UpstreamDetails err))))"
proof (cases "truthy (access_token req)")
  case False
  then show ?thesis by (simp add: GET_def mkResponse_def)
next
  case True
  obtain res l where tb: "tryBlock w (the (access_token req)) = (res, l)"
    by (cases "tryBlock w (the (access_token req))")
  show ?thesis
  proof (cases res)
    case (Inl e)
    with True tb show ?thesis by (simp add: GET_def mkResponse_def)
  next
    case (Inr r)
    from tb Inr obtain st parsed where u: "userinfo w = Resolves st parsed"
      by (auto simp: tryBlock_def split: fetch_outcome.splits)
    show ?thesis
    proof (cases "ok st")
      case False
      with True tb Inr u show ?thesis
        by (auto simp: GET_def tryBlock_def NextResponse_json_def Let_def mkResponse_def)
    next
      case ok: True
      with tb Inr u have
        "subscriptionsStage cacheHeaders w (the (access_token req))
           [GetUserinfo (the (access_token req))] = (Inr r, l)"
        by (simp add: tryBlock_def)
      from subscriptionsStage_headers [OF this] True tb Inr show ?thesis
        by (cases "body r") (auto simp: GET_def)
    qed
  qed
qed

subsection \<open>The sanitizer\<close>

lemma keepVideo_sanitizeVideo:
  "keepVideo (sanitizeVideo now item) \<longleftrightarrow> truthy (item_videoId item) \<and> truthy (item_url item)"
  by (auto simp: keepVideo_def sanitizeVideo_def or_else_def truthy_def split: option.splits)

lemma title_sanitizeVideo:
  "title (sanitizeVideo now item) = (case item_title item of None \<Rightarrow> [] | Some t \<Rightarrow> t)"
  by (simp add: sanitizeVideo_def or_else_def split: option.splits)

lemma publishedAt_sanitizeVideo:
  "publishedAt (sanitizeVideo now item) =
     (case item_publishedAt item of None \<Rightarrow> now | Some p \<Rightarrow> if p = [] then now else p)"
  by (simp add: sanitizeVideo_def or_else_def split: option.splits)

lemma filter_keepVideo_map:
  "filter keepVideo (map (\<lambda>(j, item). sanitizeVideo (clk j) item) xs) =
   map (\<lambda>(j, item). sanitizeVideo (clk j) item)
     (filter (\<lambda>(j, item). truthy (item_videoId item) \<and> truthy (item_url item)) xs)"
  by (induction xs) (auto simp: keepVideo_sanitizeVideo)

lemma sanitizedVideos_Some:
  "sanitizedVideos clk (Some items) =
     map (\<lambda>(j, item). sanitizeVideo (clk j) item)
       (filter (\<lambda>(j, item). truthy (item_videoId item) \<and> truthy (item_url item))
          (enumerate 0 items))"
  by (simp add: sanitizedVideos_def filter_keepVideo_map)

subsection \<open>The example\<close>

lemma exampleWorld_response:
  "GET exampleWorld exampleRequest =
     (\<lparr>status = 200, body = VideosBody exampleItems 3, headers = cacheHeaders\<rparr>,
      [GetUserinfo ''ya29.token'', GetSubscriptions ''ya29.token'',
       GetSearch ''A'', GetSearch ''C'', GetSearch ''B''])"
  by code_simp

lemma exampleWorld_body:
  "body \<lparr>status = 200, body = VideosBody exampleItems 3, headers = cacheHeaders\<rparr>
     = VideosBody exampleItems 3"
  by simp

lemma exampleWorld_allVideos:
  "allVideosOf exampleWorld =
     [exampleSanitized ''a1'' ''2024-01-08T00:00:00.000Z'',
      exampleSanitized ''a2'' ''2024-01-07T00:00:00.000Z'',
      exampleSanitized ''a3'' ''2024-01-06T00:00:00.000Z'',
      exampleSanitized ''b1'' ''2024-01-09T00:00:00.000Z'',
      exampleSanitized ''b2'' ''2024-01-05T00:00:00.000Z'']"
  by code_simp

lemma exampleWorld_dates_parse:
  "\<forall>v\<in>set (allVideosOf exampleWorld). getTime exampleWorld (publishedAt v) \<noteq> None"
  unfolding exampleWorld_allVideos by code_simp

lemma exampleWorld_channels:
  "channelIdsOf exampleSubscriptions = [''A'', ''C'', ''B'']"
  by code_simp

lemma exampleWorld_answers:
  "\<forall>(k, c)\<in>set (enumerate 0 (channelIdsOf exampleSubscriptions)).
      answersJson (search exampleWorld k c)"
  unfolding exampleWorld_channels by code_simp

lemma exampleWorld_skips:
  "skipsChannel (search exampleWorld 1 ''C'') \<and> \<not> skipsChannel (search exampleWorld 0 ''A'') \<and>
   \<not> skipsChannel (search exampleWorld 2 ''B'')"
  by code_simp

lemma statusOnlyWorld_response:
  "GET statusOnlyWorld exampleRequest =
     (\<lparr>status = 200, body = VideosBody exampleItems 3, headers = cacheHeaders\<rparr>,
      [GetUserinfo ''ya29.token'', GetSubscriptions ''ya29.token'',
       GetSearch ''A'', GetSearch ''C'', GetSearch ''B''])"
  by code_simp

lemma upstreamErrorWorld_response:
  "GET upstreamErrorWorld exampleRequest =
     (\<lparr>status = 403, body = ErrorBody ''quotaExceeded'' (Some (UpstreamDetails quotaError)),
       headers = []\<rparr>,
      [GetUserinfo ''ya29.token'', GetSubscriptions ''ya29.token''])"
  by code_simp

lemma garbledWorld_allVideos: "allVideosOf (garbledWorld\<lparr>engineOrder := e\<rparr>) = garbledItems"
  by (simp add: allVideosOf_def collectedVideos_def subscriptionRecords_def garbledWorld_def
        exampleWorld_def channelIdsOf_def sub_channelId_def exampleSubscription_def truthy_def
        skipsChannel_def ok_def channelVideos_def sanitizedVideos_def sanitizeVideo_def
        keepVideo_def exampleVideo_def item_videoId_def item_title_def item_url_def
        item_publishedAt_def or_else_def garbledItems_def exampleSanitized_def)

text \<open>
  No order of the three videos is sorted: the outcome does not depend on what the engine
  does with the inconsistent comparator.
\<close>

lemma garbledWorld_any_engine:
  assumes "GET (garbledWorld\<lparr>engineOrder := e\<rparr>) exampleRequest = (r, log)"
    "body r = VideosBody vs n"
  shows "\<not> sortedByDate exampleGetTime vs"
proof -
  let ?w = "garbledWorld\<lparr>engineOrder := e\<rparr>"
  from GET_VideosBody [OF assms]
  have vs: "vs = sortedVideos (engineOrder ?w) (getTime ?w) (allVideosOf ?w)"
    by simp
  have len: "length garbledItems = 3"
    by (simp add: garbledItems_def)
  have g: "getTime ?w = exampleGetTime"
    by (simp add: garbledWorld_def exampleWorld_def)
  have e: "engineOrder ?w = e"
    by simp
  from vs have "vs = take 10 (arraySort e exampleGetTime garbledItems)"
    by (simp only: sortedVideos_def garbledWorld_allVideos g e)
  then have vs': "vs = arraySort e exampleGetTime garbledItems"
    by (simp add: length_arraySort len)
  let ?x = "exampleSanitized ''x2'' ''not a date''"
  have "?x \<in> set vs" "2 \<le> length vs"
    by (simp_all add: vs' set_arraySort length_arraySort len) (simp add: garbledItems_def)
  moreover have "exampleGetTime ''not a date'' = None"
    by code_simp
  then have "\<not> notEarlier exampleGetTime ?x y" "\<not> notEarlier exampleGetTime y ?x" for y
    by (auto simp: notEarlier_def exampleSanitized_def split: option.splits)
  ultimately show ?thesis
    unfolding sortedByDate_def by (intro not_sorted_with_incomparable)
qed

section \<open>The claims\<close>

text \<open>
  C9. A request without the \<^verbatim>\<open>access_token\<close> parameter is answered with status 401 and
  the error "Access token required", and no upstream call is made: the log is empty.
\<close>

theorem missing_token_401:
  "access_token req = None \<Longrightarrow>
   status (fst (GET w req)) = 401 \<and>
   body (fst (GET w req)) = ErrorBody ''Access token required'' None \<and>
   snd (GET w req) = []"
  by (simp add: GET_def truthy_def mkResponse_def)

theorem missing_token_401_witness:
  "access_token \<lparr>access_token = None\<rparr> = None \<and>
   status (fst (GET exampleWorld \<lparr>access_token = None\<rparr>)) = 401 \<and>
   body (fst (GET exampleWorld \<lparr>access_token = None\<rparr>)) = ErrorBody ''Access token required'' None \<and>
   snd (GET exampleWorld \<lparr>access_token = None\<rparr>) = []"
  using missing_token_401 [of "\<lparr>access_token = None\<rparr>" exampleWorld] by simp



text \<open>
  C6. When the token is accepted and the subscriptions answer is a payload without error
  member whose \<^verbatim>\<open>items\<close> list is empty (or missing), the response is 404 with the error
  "No subscriptions found", and the log holds the identity call and the subscriptions
  call only: no search call occurs. (The test of the error member comes first in the
  source, so a payload with an error member is answered as an upstream error.)
\<close>

theorem no_subscriptions_404:
  "access_token req = Some tok \<Longrightarrow> tok \<noteq> [] \<Longrightarrow>
   userinfo w = Resolves st u \<Longrightarrow> ok st \<Longrightarrow>
   subscriptions w = Resolves st' (Inr data) \<Longrightarrow> subscriptions_error data = None \<Longrightarrow>
   subscriptions_items data = None \<or> subscriptions_items data = Some [] \<Longrightarrow>
   status (fst (GET w req)) = 404 \<and>
   body (fst (GET w req)) = ErrorBody ''No subscriptions found'' None \<and>
   snd (GET w req) = [GetUserinfo tok, GetSubscriptions tok]"
  by (auto simp: GET_def truthy_def tryBlock_def subscriptionsStage_def NextResponse_json_def Let_def
        mkResponse_def)

theorem no_subscriptions_404_witness:
  "access_token exampleRequest = Some ''ya29.token'' \<and>
   userinfo noSubscriptionsWorld = Resolves 200 (Inr ()) \<and> ok 200 \<and>
   subscriptions noSubscriptionsWorld =
     Resolves 200 (Inr \<lparr>subscriptions_error = None, subscriptions_items = Some []\<rparr>) \<and>
   status (fst (GET noSubscriptionsWorld exampleRequest)) = 404 \<and>
   body (fst (GET noSubscriptionsWorld exampleRequest)) = ErrorBody ''No subscriptions found'' None \<and>
   snd (GET noSubscriptionsWorld exampleRequest)
     = [GetUserinfo ''ya29.token'', GetSubscriptions ''ya29.token'']"
  using no_subscriptions_404 [of exampleRequest "''ya29.token''" noSubscriptionsWorld 200 "Inr ()"
      200 "\<lparr>subscriptions_error = None, subscriptions_items = Some []\<rparr>"]
  by (simp add: exampleRequest_def ok_def noSubscriptionsWorld_def exampleWorld_def)

text \<open>
  C5. Every response is said to carry the three cache-disabling headers. The handler
  passes them on four of its six \<^verbatim>\<open>return\<close> statements; the 404 response (and the
  upstream-error response) is built without any header. Evaluated at a request with an
  accepted token and an empty subscriptions list.
\<close>

theorem not_found_without_cache_headers:
  "status (fst (GET noSubscriptionsWorld exampleRequest)) = 404 \<and>
   body (fst (GET noSubscriptionsWorld exampleRequest)) = ErrorBody ''No subscriptions found'' None \<and>
   headers (fst (GET noSubscriptionsWorld exampleRequest)) = []"
  by code_simp

text \<open>
  C2. Every video in the \<^verbatim>\<open>items\<close> of a response has a non-empty video identifier and
  a non-empty medium-thumbnail URL: only records that pass the filter reach the output.
\<close>

theorem kept_videos_have_id_and_thumbnail:
  assumes "GET w req = (r, log)" "body r = VideosBody vs n" "v \<in> set vs"
  shows "videoId v \<noteq> [] \<and> url v \<noteq> []"
proof -
  from GET_VideosBody [OF assms(1,2)] have "vs = sortedVideos (engineOrder w) (getTime w) (allVideosOf w)"
    by simp
  with assms(3) set_sortedVideos have "v \<in> set (allVideosOf w)"
    by blast
  then have "keepVideo v"
    unfolding allVideosOf_def by (rule keepVideo_collectedVideos)
  then show ?thesis by (simp add: keepVideo_def)
qed

theorem kept_videos_have_id_and_thumbnail_witness:
  "body (fst (GET exampleWorld exampleRequest)) = VideosBody exampleItems 3 \<and>
   exampleSanitized ''a3'' ''2024-01-06T00:00:00.000Z'' \<in> set exampleItems \<and>
   videoId (exampleSanitized ''a3'' ''2024-01-06T00:00:00.000Z'') \<noteq> [] \<and>
   url (exampleSanitized ''a3'' ''2024-01-06T00:00:00.000Z'') \<noteq> []"
proof -
  note b = exampleWorld_body
  have m: "exampleSanitized ''a3'' ''2024-01-06T00:00:00.000Z'' \<in> set exampleItems"
    by (simp add: exampleItems_def)
  from kept_videos_have_id_and_thumbnail [OF exampleWorld_response b m] b m
  show ?thesis by (simp add: exampleWorld_response)
qed

text \<open>
  C7. Sanitization puts the empty string for a missing title and the reading of the
  clock for a missing publish timestamp. The records kept are exactly those with a
  non-empty video identifier and a non-empty thumbnail URL, in upstream order; so a record
  without title that has both is kept, with the empty title.
\<close>

theorem sanitize_defaults_and_drop:
  "title (sanitizeVideo now item) = (case item_title item of None \<Rightarrow> [] | Some t \<Rightarrow> t) \<and>
   publishedAt (sanitizeVideo now item) =
     (case item_publishedAt item of None \<Rightarrow> now | Some p \<Rightarrow> if p = [] then now else p) \<and>
   sanitizedVideos clk (Some items) =
     map (\<lambda>(j, item). sanitizeVideo (clk j) item)
       (filter (\<lambda>(j, item). truthy (item_videoId item) \<and> truthy (item_url item))
          (enumerate 0 items)) \<and>
   (item_title item = None \<longrightarrow> truthy (item_videoId item) \<longrightarrow> truthy (item_url item) \<longrightarrow>
      sanitizedVideos clk (Some [item]) = [sanitizeVideo (clk 0) item] \<and>
      title (sanitizeVideo (clk 0) item) = [])"
proof (intro conjI impI)
  show "title (sanitizeVideo now item) = (case item_title item of None \<Rightarrow> [] | Some t \<Rightarrow> t)"
    by (rule title_sanitizeVideo)
  show "publishedAt (sanitizeVideo now item) =
     (case item_publishedAt item of None \<Rightarrow> now | Some p \<Rightarrow> if p = [] then now else p)"
    by (rule publishedAt_sanitizeVideo)
  show "sanitizedVideos clk (Some items) =
     map (\<lambda>(j, item). sanitizeVideo (clk j) item)
       (filter (\<lambda>(j, item). truthy (item_videoId item) \<and> truthy (item_url item))
          (enumerate 0 items))"
    by (rule sanitizedVideos_Some)
next
  assume "item_title item = None" "truthy (item_videoId item)" "truthy (item_url item)"
  then show "sanitizedVideos clk (Some [item]) = [sanitizeVideo (clk 0) item]"
    by (simp add: sanitizedVideos_Some)
next
  assume "item_title item = None"
  then show "title (sanitizeVideo (clk 0) item) = []"
    by (simp add: title_sanitizeVideo)
qed

theorem sanitize_defaults_and_drop_witness:
  "item_title untitledVideo = None \<and> truthy (item_videoId untitledVideo) \<and>
   truthy (item_url untitledVideo) \<and>
   sanitizedVideos (\<lambda>j. ''2024-01-09T12:00:00.000Z'') (Some [untitledVideo]) =
     [\<lparr>videoId = ''u1'', title = [], url = ''https://i.ytimg.com/u.jpg'',
       publishedAt = ''2024-01-09T12:00:00.000Z''\<rparr>] \<and>
   sanitizedVideos (\<lambda>j. ''2024-01-09T12:00:00.000Z'') (Some [noThumbnailVideo]) = []"
  using sanitize_defaults_and_drop [of "''2024-01-09T12:00:00.000Z''" untitledVideo
      "\<lambda>j. ''2024-01-09T12:00:00.000Z''" "[noThumbnailVideo]"]
  by (simp add: untitledVideo_def noThumbnailVideo_def item_title_def item_videoId_def item_url_def
        item_publishedAt_def truthy_def sanitizeVideo_def or_else_def)

text \<open>
  C8. In a response with \<^verbatim>\<open>items\<close>, \<^verbatim>\<open>subscriptionCount\<close> is the number of
  subscription records that have a (non-empty) channel identifier. The channel identifiers
  are those of these records, in order, and they are the channels searched. The count is
  not the number of videos: in the example it is 3, with 5 videos and 4 records.
\<close>

theorem subscriptionCount_counts_channels:
  assumes "GET w req = (r, log)" "body r = VideosBody vs n"
  shows "n = length (filter (\<lambda>sub. truthy (sub_channelId sub)) (subscriptionRecords w)) \<and>
         channelIdsOf (subscriptionRecords w) =
           map (\<lambda>sub. the (sub_channelId sub))
             (filter (\<lambda>sub. truthy (sub_channelId sub)) (subscriptionRecords w)) \<and>
         log = GetUserinfo (the (access_token req)) # GetSubscriptions (the (access_token req))
                 # map GetSearch (channelIdsOf (subscriptionRecords w))"
proof -
  have c: "channelIdsOf xs = map (\<lambda>sub. the (sub_channelId sub)) (filter (\<lambda>sub. truthy (sub_channelId sub)) xs)"
    for xs
    by (simp add: channelIdsOf_def filter_map comp_def)
  from GET_VideosBody [OF assms] have "n = length (channelIdsOf (subscriptionRecords w))"
    and "log = GetUserinfo (the (access_token req)) # GetSubscriptions (the (access_token req))
                 # map GetSearch (channelIdsOf (subscriptionRecords w))"
    by simp_all
  then show ?thesis using c [of "subscriptionRecords w"] by simp
qed

theorem subscriptionCount_counts_channels_witness:
  "body (fst (GET exampleWorld exampleRequest)) = VideosBody exampleItems 3 \<and>
   length (subscriptionRecords exampleWorld) = 4 \<and>
   length exampleItems = 5 \<and>
   channelIdsOf (subscriptionRecords exampleWorld) = [''A'', ''C'', ''B''] \<and>
   (3::nat) = length (filter (\<lambda>sub. truthy (sub_channelId sub)) (subscriptionRecords exampleWorld))"
proof -
  note b = exampleWorld_body
  have c: "channelIdsOf (subscriptionRecords exampleWorld) = [''A'', ''C'', ''B'']"
    by code_simp
  have l: "length (subscriptionRecords exampleWorld) = 4"
    by code_simp
  have i: "length exampleItems = 5"
    by (simp add: exampleItems_def)
  from subscriptionCount_counts_channels [OF exampleWorld_response b] b c l i
  show ?thesis by (simp add: exampleWorld_response)
qed

text \<open>
  C1, as amended. The \<^verbatim>\<open>items\<close> of a response are the first 10 entries of a
  permutation of the concatenation of the per-channel sanitized videos, so there are at
  most 10; and provided every publish timestamp among the collected videos parses to a
  date, that permutation is the stable sort by the comparator and the items are sorted by
  publish timestamp, non-increasing.
\<close>

theorem items_sorted_and_at_most_ten:
  assumes "GET w req = (r, log)" "body r = VideosBody vs n"
  shows "length vs \<le> 10 \<and>
         (\<exists>ys. mset ys = mset (allVideosOf w) \<and> vs = take 10 ys \<and>
            ((\<forall>v\<in>set (allVideosOf w). getTime w (publishedAt v) \<noteq> None) \<longrightarrow>
               ys = sortBy (compareVideos (getTime w)) (allVideosOf w))) \<and>
         ((\<forall>v\<in>set (allVideosOf w). getTime w (publishedAt v) \<noteq> None) \<longrightarrow>
            sortedByDate (getTime w) vs)"
proof -
  let ?ys = "arraySort (engineOrder w) (getTime w) (allVideosOf w)"
  from GET_VideosBody [OF assms]
  have vs: "vs = sortedVideos (engineOrder w) (getTime w) (allVideosOf w)"
    by simp
  then have "length vs \<le> 10"
    by (simp add: length_sortedVideos)
  moreover have "mset ?ys = mset (allVideosOf w)"
    by (rule mset_arraySort)
  moreover from vs have "vs = take 10 ?ys"
    by (simp add: sortedVideos_def)
  moreover have "?ys = sortBy (compareVideos (getTime w)) (allVideosOf w)"
    if "\<forall>v\<in>set (allVideosOf w). getTime w (publishedAt v) \<noteq> None"
    using that by (rule arraySort_valid_dates)
  moreover have "sortedByDate (getTime w) vs"
    if "\<forall>v\<in>set (allVideosOf w). getTime w (publishedAt v) \<noteq> None"
    using that vs by (simp add: sortedByDate_sortedVideos)
  ultimately show ?thesis by blast
qed

theorem items_sorted_and_at_most_ten_witness:
  "body (fst (GET exampleWorld exampleRequest)) = VideosBody exampleItems 3 \<and>
   list_all (\<lambda>v. getTime exampleWorld (publishedAt v) \<noteq> None) (allVideosOf exampleWorld) \<and>
   length exampleItems \<le> 10 \<and>
   sortedByDate (getTime exampleWorld) exampleItems"
proof -
  from items_sorted_and_at_most_ten [OF exampleWorld_response exampleWorld_body]
    exampleWorld_dates_parse
  have "length exampleItems \<le> 10" and "sortedByDate (getTime exampleWorld) exampleItems"
    by blast+
  moreover have "body (fst (GET exampleWorld exampleRequest)) = VideosBody exampleItems 3"
    by (simp add: exampleWorld_response)
  moreover from exampleWorld_dates_parse have
    "list_all (\<lambda>v. getTime exampleWorld (publishedAt v) \<noteq> None) (allVideosOf exampleWorld)"
    by (simp only: list_all_iff)
  ultimately show ?thesis by (intro conjI)
qed

text \<open>
  C1, as stated, fails when a publish timestamp does not parse: the comparator then
  yields \<^verbatim>\<open>NaN\<close> against every other video and is not consistent. One channel answers
  three videos dated 5 January, "not a date", 8 January; the engine leaves this array as
  it is, and the response has status 200 and lists the videos in this order, the oldest
  first and a later one third. (By \<open>garbledWorld_any_engine\<close> no engine returns a sorted
  list here.)
\<close>

theorem unparseable_date_breaks_order:
  "status (fst (GET garbledWorld exampleRequest)) = 200 \<and>
   body (fst (GET garbledWorld exampleRequest)) = VideosBody garbledItems 1 \<and>
   \<not> sortedByDate (getTime garbledWorld) garbledItems \<and>
   getTime garbledWorld (publishedAt (garbledItems ! 0)) = Some 1704412800000 \<and>
   getTime garbledWorld (publishedAt (garbledItems ! 2)) = Some 1704672000000"
  by code_simp

text \<open>
  C3, as amended. When the token is accepted, the subscriptions list is not empty and
  every search call is answered with a JSON payload, the response is 200 and every
  channel is searched, whatever the answers before it. A channel is skipped when its
  answer has a non-success status or an error member. The items are the first 10 entries
  of a permutation of the videos of the channels that are not skipped (the stable sort by
  date when all their dates parse).
\<close>

theorem failed_channels_are_skipped:
  assumes "access_token req = Some tok" "tok \<noteq> []"
    and "userinfo w = Resolves st u" "ok st"
    and "subscriptions w = Resolves st' (Inr data)" "subscriptions_error data = None"
    and "subscriptions_items data = Some items" "items \<noteq> []"
    and "\<forall>(k, c)\<in>set (enumerate 0 (channelIdsOf items)). answersJson (search w k c)"
  shows "\<exists>ys.
     mset ys =
       mset (concat (map (\<lambda>(k, c). channelVideos w k c)
               (filter (\<lambda>(k, c). \<not> skipsChannel (search w k c))
                  (enumerate 0 (channelIdsOf items))))) \<and>
     ((\<forall>v\<in>set ys. getTime w (publishedAt v) \<noteq> None) \<longrightarrow>
        ys = sortBy (compareVideos (getTime w))
               (concat (map (\<lambda>(k, c). channelVideos w k c)
                  (filter (\<lambda>(k, c). \<not> skipsChannel (search w k c))
                     (enumerate 0 (channelIdsOf items)))))) \<and>
     GET w req =
       (\<lparr>status = 200,
         body = VideosBody (take 10 ys) (length (channelIdsOf items)),
         headers = cacheHeaders\<rparr>,
        GetUserinfo tok # GetSubscriptions tok # map GetSearch (channelIdsOf items))"
  using GET_all_answer_perm [OF assms] by (simp add: collectedVideos_def)

theorem failed_channels_are_skipped_witness:
  "channelIdsOf exampleSubscriptions = [''A'', ''C'', ''B''] \<and>
   skipsChannel (search exampleWorld 1 ''C'') \<and>
   \<not> skipsChannel (search exampleWorld 0 ''A'') \<and>
   \<not> skipsChannel (search exampleWorld 2 ''B'') \<and>
   list_all (\<lambda>(k, c). answersJson (search exampleWorld k c))
     (enumerate 0 (channelIdsOf exampleSubscriptions)) \<and>
   GET exampleWorld exampleRequest =
     (\<lparr>status = 200, body = VideosBody exampleItems 3, headers = cacheHeaders\<rparr>,
      [GetUserinfo ''ya29.token'', GetSubscriptions ''ya29.token'',
       GetSearch ''A'', GetSearch ''C'', GetSearch ''B''])"
proof -
  have h1: "access_token exampleRequest = Some ''ya29.token''"
    by (simp add: exampleRequest_def)
  have h2: "''ya29.token'' \<noteq> []" by simp
  have h3: "userinfo exampleWorld = Resolves 200 (Inr ())"
    by (simp add: exampleWorld_def)
  have h4: "ok 200" by (simp add: ok_def)
  have h5: "subscriptions exampleWorld = Resolves 200 (Inr exampleSubscriptionsData)"
    by (simp add: exampleWorld_def)
  have h6: "subscriptions_error exampleSubscriptionsData = None"
    by (simp add: exampleSubscriptionsData_def)
  have h7: "subscriptions_items exampleSubscriptionsData = Some exampleSubscriptions"
    by (simp add: exampleSubscriptionsData_def)
  have h8: "exampleSubscriptions \<noteq> []"
    by (simp add: exampleSubscriptions_def)
  from failed_channels_are_skipped [OF h1 h2 h3 h4 h5 h6 h7 h8 exampleWorld_answers]
  obtain ys where g: "GET exampleWorld exampleRequest =
       (\<lparr>status = 200,
         body = VideosBody (take 10 ys) (length (channelIdsOf exampleSubscriptions)),
         headers = cacheHeaders\<rparr>,
        GetUserinfo ''ya29.token'' # GetSubscriptions ''ya29.token''
          # map GetSearch (channelIdsOf exampleSubscriptions))"
    by blast
  from g have t: "take 10 ys = exampleItems"
    by (simp add: exampleWorld_response)
  have "GET exampleWorld exampleRequest =
     (\<lparr>status = 200, body = VideosBody exampleItems 3, headers = cacheHeaders\<rparr>,
      [GetUserinfo ''ya29.token'', GetSubscriptions ''ya29.token'',
       GetSearch ''A'', GetSearch ''C'', GetSearch ''B''])"
    by (simp only: g t exampleWorld_channels) simp
  moreover from exampleWorld_answers have
    "list_all (\<lambda>(k, c). answersJson (search exampleWorld k c))
       (enumerate 0 (channelIdsOf exampleSubscriptions))"
    by (simp only: list_all_iff)
  ultimately show ?thesis
    using exampleWorld_channels exampleWorld_skips by (intro conjI) blast+
qed

text \<open>
  C3, as stated, fails for a transport failure: the loop has no \<^verbatim>\<open>try\<close> of its own, so
  a rejected \<^verbatim>\<open>fetch\<close> reaches the \<^verbatim>\<open>catch\<close> of the handler. In the example with the
  search for channel C rejected, the response is 500 and channel B is never searched.
\<close>

theorem rejected_search_aborts:
  "status (fst (GET rejectingWorld exampleRequest)) = 500 \<and>
   body (fst (GET rejectingWorld exampleRequest)) =
     ErrorBody ''Internal server error'' (Some (ExceptionMessage (NetworkError ''fetch failed''))) \<and>
   snd (GET rejectingWorld exampleRequest) =
     [GetUserinfo ''ya29.token'', GetSubscriptions ''ya29.token'', GetSearch ''A'', GetSearch ''C'']"
  by code_simp

text \<open>
  C10. The subscriptions stage never reads the HTTP status of the subscriptions answer:
  an upstream-error response arises only from an error member in the payload, and the
  handler answers a payload with any status as it answers the same payload with status
  200. Without error member this is the 404 response when the items are missing or
  empty, and otherwise the items are the subscription records whose channels are searched.
\<close>

theorem subscriptions_status_is_ignored:
  assumes "access_token req = Some tok" "tok \<noteq> []"
    and "userinfo w = Resolves sti u" "ok sti"
    and "subscriptions w = Resolves st (Inr data)"
  shows "(body (fst (GET w req)) = ErrorBody m (Some (UpstreamDetails err)) \<longrightarrow>
            subscriptions_error data = Some err) \<and>
         GET w req = GET (w\<lparr>subscriptions := Resolves 200 (Inr data)\<rparr>) req \<and>
         (subscriptions_error data = None \<longrightarrow>
            subscriptions_items data = None \<or> subscriptions_items data = Some [] \<longrightarrow>
            status (fst (GET w req)) = 404 \<and>
            body (fst (GET w req)) = ErrorBody ''No subscriptions found'' None) \<and>
         (subscriptions_error data = None \<longrightarrow>
            subscriptions_items data = Some items \<longrightarrow> items \<noteq> [] \<longrightarrow>
            (\<forall>(k, c)\<in>set (enumerate 0 (channelIdsOf items)). answersJson (search w k c)) \<longrightarrow>
            (\<exists>ys. mset ys = mset (collectedVideos w 0 (channelIdsOf items)) \<and>
               ((\<forall>v\<in>set ys. getTime w (publishedAt v) \<noteq> None) \<longrightarrow>
                  ys = sortBy (compareVideos (getTime w))
                         (collectedVideos w 0 (channelIdsOf items))) \<and>
               status (fst (GET w req)) = 200 \<and>
               body (fst (GET w req)) = VideosBody (take 10 ys) (length (channelIdsOf items)) \<and>
               snd (GET w req) =
                 GetUserinfo tok # GetSubscriptions tok # map GetSearch (channelIdsOf items)))"
proof (intro conjI impI)
  assume "body (fst (GET w req)) = ErrorBody m (Some (UpstreamDetails err))"
  with GET_UpstreamDetails [of w req "fst (GET w req)" "snd (GET w req)" m err] assms(5)
  show "subscriptions_error data = Some err" by auto
next
  show "GET w req = GET (w\<lparr>subscriptions := Resolves 200 (Inr data)\<rparr>) req"
    using GET_status [OF assms(5), of 200 req] by simp
next
  assume "subscriptions_error data = None"
    "subscriptions_items data = None \<or> subscriptions_items data = Some []"
  from GET_no_subscriptions [OF assms this]
  show "status (fst (GET w req)) = 404"
    and "body (fst (GET w req)) = ErrorBody ''No subscriptions found'' None"
    by simp_all
next
  assume "subscriptions_error data = None" "subscriptions_items data = Some items" "items \<noteq> []"
    "\<forall>(k, c)\<in>set (enumerate 0 (channelIdsOf items)). answersJson (search w k c)"
  from GET_all_answer_perm [OF assms this]
  obtain ys where ys: "mset ys = mset (collectedVideos w 0 (channelIdsOf items))"
    "(\<forall>v\<in>set ys. getTime w (publishedAt v) \<noteq> None) \<longrightarrow>
       ys = sortBy (compareVideos (getTime w)) (collectedVideos w 0 (channelIdsOf items))"
    "GET w req =
       (\<lparr>status = 200, body = VideosBody (take 10 ys) (length (channelIdsOf items)),
         headers = cacheHeaders\<rparr>,
        GetUserinfo tok # GetSubscriptions tok # map GetSearch (channelIdsOf items))"
    by blast
  show "\<exists>ys. mset ys = mset (collectedVideos w 0 (channelIdsOf items)) \<and>
          ((\<forall>v\<in>set ys. getTime w (publishedAt v) \<noteq> None) \<longrightarrow>
             ys = sortBy (compareVideos (getTime w))
                    (collectedVideos w 0 (channelIdsOf items))) \<and>
          status (fst (GET w req)) = 200 \<and>
          body (fst (GET w req)) = VideosBody (take 10 ys) (length (channelIdsOf items)) \<and>
          snd (GET w req) =
            GetUserinfo tok # GetSubscriptions tok # map GetSearch (channelIdsOf items)"
  proof (intro exI conjI)
    show "mset ys = mset (collectedVideos w 0 (channelIdsOf items))"
      by (rule ys(1))
    show "(\<forall>v\<in>set ys. getTime w (publishedAt v) \<noteq> None) \<longrightarrow>
       ys = sortBy (compareVideos (getTime w)) (collectedVideos w 0 (channelIdsOf items))"
      by (rule ys(2))
    show "status (fst (GET w req)) = 200"
      by (simp add: ys(3))
    show "body (fst (GET w req)) = VideosBody (take 10 ys) (length (channelIdsOf items))"
      by (simp add: ys(3))
    show "snd (GET w req) =
       GetUserinfo tok # GetSubscriptions tok # map GetSearch (channelIdsOf items)"
      by (simp add: ys(3))
  qed
qed

theorem subscriptions_status_is_ignored_witness:
  "\<not> ok 500 \<and>
   subscriptions statusOnlyWorld = Resolves 500 (Inr exampleSubscriptionsData) \<and>
   subscriptions_error exampleSubscriptionsData = None \<and>
   GET statusOnlyWorld exampleRequest =
     GET (statusOnlyWorld\<lparr>subscriptions := Resolves 200 (Inr exampleSubscriptionsData)\<rparr>)
       exampleRequest \<and>
   status (fst (GET statusOnlyWorld exampleRequest)) = 200 \<and>
   body (fst (GET statusOnlyWorld exampleRequest)) = VideosBody exampleItems 3 \<and>
   subscriptions upstreamErrorWorld =
     Resolves 403 (Inr \<lparr>subscriptions_error = Some quotaError, subscriptions_items = None\<rparr>) \<and>
   body (fst (GET upstreamErrorWorld exampleRequest)) =
     ErrorBody ''quotaExceeded'' (Some (UpstreamDetails quotaError)) \<and>
   subscriptions_error \<lparr>subscriptions_error = Some quotaError, subscriptions_items = None\<rparr> =
     Some quotaError"
proof -
  have h1: "access_token exampleRequest = Some ''ya29.token''"
    by (simp add: exampleRequest_def)
  have h2: "''ya29.token'' \<noteq> []" by simp
  have h3: "userinfo statusOnlyWorld = Resolves 200 (Inr ())"
    by (simp add: statusOnlyWorld_def exampleWorld_def)
  have h3': "userinfo upstreamErrorWorld = Resolves 200 (Inr ())"
    by (simp add: upstreamErrorWorld_def exampleWorld_def)
  have h4: "ok 200" by (simp add: ok_def)
  have h5: "subscriptions statusOnlyWorld = Resolves 500 (Inr exampleSubscriptionsData)"
    by (simp add: statusOnlyWorld_def)
  have h5': "subscriptions upstreamErrorWorld =
     Resolves 403 (Inr \<lparr>subscriptions_error = Some quotaError, subscriptions_items = None\<rparr>)"
    by (simp add: upstreamErrorWorld_def)
  have h6: "subscriptions_error exampleSubscriptionsData = None"
    by (simp add: exampleSubscriptionsData_def)
  have n: "\<not> ok 500" by (simp add: ok_def)
  have b: "body (fst (GET upstreamErrorWorld exampleRequest)) =
     ErrorBody ''quotaExceeded'' (Some (UpstreamDetails quotaError))"
    by (simp add: upstreamErrorWorld_response)
  from subscriptions_status_is_ignored [OF h1 h2 h3 h4 h5]
  have same: "GET statusOnlyWorld exampleRequest =
     GET (statusOnlyWorld\<lparr>subscriptions := Resolves 200 (Inr exampleSubscriptionsData)\<rparr>)
       exampleRequest"
    by blast
  from subscriptions_status_is_ignored [OF h1 h2 h3' h4 h5',
      of "''quotaExceeded''" quotaError] b
  have err: "subscriptions_error
       \<lparr>subscriptions_error = Some quotaError, subscriptions_items = None\<rparr> = Some quotaError"
    by blast
  show ?thesis
  proof (intro conjI)
    show "GET statusOnlyWorld exampleRequest =
       GET (statusOnlyWorld\<lparr>subscriptions := Resolves 200 (Inr exampleSubscriptionsData)\<rparr>)
         exampleRequest"
      by (rule same)
    show "status (fst (GET statusOnlyWorld exampleRequest)) = 200"
      by (simp add: statusOnlyWorld_response)
    show "body (fst (GET statusOnlyWorld exampleRequest)) = VideosBody exampleItems 3"
      by (simp add: statusOnlyWorld_response)
  qed (rule n h5 h5' h6 b err)+
qed

end
